theory Spec2Isabelle
  imports Complex_Main "HOL-Library.Word"
begin

unbundle bit_operations_syntax

section \<open>Recommendation logic of \<^verbatim>\<open>src/components/VideoPlayer.tsx\<close>\<close>

text \<open>
  The declaration of \<^verbatim>\<open>Video\<close> (\<^verbatim>\<open>../types\<close>) is not among the sources; the
  player reads the fields \<^verbatim>\<open>id\<close>, \<^verbatim>\<open>title\<close>, \<^verbatim>\<open>description\<close> and
  \<^verbatim>\<open>videoUrl\<close>. The type of the identifier is left as a parameter; \<^verbatim>\<open>===\<close> on it is
  equality. Titles and descriptions are strings over the code points U+0000 .. U+00FF,
  one \<^typ>\<open>char\<close> each.
\<close>

record 'i video =
  video_id :: 'i
  title :: string
  description :: string
  videoUrl :: string

text \<open>\<^verbatim>\<open>\w\<close> of a regular expression without the unicode flag: \<^verbatim>\<open>[A-Za-z0-9_]\<close>.\<close>

definition is_word_char :: "char \<Rightarrow> bool" where
  "is_word_char c =
     (let n = (of_char c :: nat)
      in (65 \<le> n \<and> n \<le> 90) \<or> (97 \<le> n \<and> n \<le> 122) \<or> (48 \<le> n \<and> n \<le> 57) \<or> n = 95)"

text \<open>\<^verbatim>\<open>\s\<close> below U+0100: tab, line feed, vertical tab, form feed, carriage return,
  space and the no-break space U+00A0.\<close>

definition is_space_char :: "char \<Rightarrow> bool" where
  "is_space_char c =
     (let n = (of_char c :: nat) in (9 \<le> n \<and> n \<le> 13) \<or> n = 32 \<or> n = 160)"

text \<open>\<^verbatim>\<open>String.prototype.toLowerCase\<close> below U+0100: the ASCII capitals and the
  capitals U+00C0 .. U+00DE (the multiplication sign U+00D7 apart) move up by 32.\<close>

definition lower_char :: "char \<Rightarrow> char" where
  "lower_char c =
     (let n = (of_char c :: nat)
      in if (65 \<le> n \<and> n \<le> 90) \<or> (192 \<le> n \<and> n \<le> 222 \<and> n \<noteq> 215)
         then char_of (n + 32) else c)"

definition toLowerCase :: "string \<Rightarrow> string" where
  "toLowerCase s = map lower_char s"

text \<open>\<^verbatim>\<open>.replace(/[^\w\s]/g, '')\<close>\<close>

definition strip_punctuation :: "string \<Rightarrow> string" where
  "strip_punctuation s = filter (\<lambda>c. is_word_char c \<or> is_space_char c) s"

text \<open>\<^verbatim>\<open>.split(/\s+/)\<close>: the pieces between maximal runs of white space; white space at
  either end of the string leaves an empty piece there, and the empty string splits into
  one empty piece.\<close>

function split_ws :: "string \<Rightarrow> string \<Rightarrow> string list" where
  "split_ws acc [] = [acc]"
| "split_ws acc (c # cs) =
     (if is_space_char c then acc # split_ws [] (dropWhile is_space_char cs)
      else split_ws (acc @ [c]) cs)"
  by pat_completeness auto
termination
  by (relation "measure (\<lambda>(acc, s). length s)")
     (auto simp: length_dropWhile_le less_Suc_eq_le)

definition stop_words :: "string list" where
  "stop_words = [''with'', ''this'', ''that'', ''from'', ''into'']"

definition tokenize :: "string \<Rightarrow> string list" where
  "tokenize text =
     filter (\<lambda>w. length w > 3 \<and> \<not> List.member stop_words w)
       (split_ws [] (strip_punctuation (toLowerCase text)))"

text \<open>\<^verbatim>\<open>title.split(' ')[0]\<close>: the title up to its first space (U+0020).\<close>

definition first_word :: "string \<Rightarrow> string" where
  "first_word t = takeWhile (\<lambda>c. c \<noteq> CHR '' '') t"

definition calculateRelevance :: "'i video \<Rightarrow> 'i video \<Rightarrow> int" where
  "calculateRelevance current candidate =
     (if video_id current = video_id candidate then - 1
      else
        let currentTokens = set (tokenize (title current @ '' '' @ description current));
            candidateTokens = tokenize (title candidate @ '' '' @ description candidate);
            matches = int (length (filter (\<lambda>token. token \<in> currentTokens) candidateTokens))
        in if first_word (title current) = first_word (title candidate)
           then matches + 2 else matches)"

text \<open>
  The memoised selection of the player: the catalogue without the playing video, each
  candidate paired with its score, sorted by \<^verbatim>\<open>(a, b) => b.score - a.score\<close>, the
  scores dropped again. \<^verbatim>\<open>Array.prototype.sort\<close> is stable, as \<^const>\<open>sort_key\<close>
  is; descending order of the score is ascending order of its negation.
  \<^verbatim>\<open>sorted[0]\<close> of an empty array is \<^verbatim>\<open>undefined\<close>, here \<^const>\<open>None\<close>.
\<close>

record 'i recommendations =
  upNext :: "'i video option"
  moreVideos :: "'i video list"

definition recommend :: "'i video \<Rightarrow> 'i video list \<Rightarrow> 'i recommendations" where
  "recommend video allVideos =
     (let sorted =
            map fst
              (sort_key (\<lambda>item. - snd item)
                 (map (\<lambda>v. (v, calculateRelevance video v))
                    (filter (\<lambda>v. video_id v \<noteq> video_id video) allVideos)))
      in \<lparr>upNext = (case sorted of [] \<Rightarrow> None | v # _ \<Rightarrow> Some v),
          moreVideos = drop 1 sorted\<rparr>)"

text \<open>The catalogue of the scenario, and a pair of items whose scores differ by direction.\<close>

definition item1 :: "nat video" where
  "item1 = \<lparr>video_id = 1, title = ''Neon Drift'',
     description = ''a racer chases a thief'', videoUrl = ''''\<rparr>"

definition item2 :: "nat video" where
  "item2 = \<lparr>video_id = 2, title = ''Neon Pulse'',
     description = ''a detective chases a racer'', videoUrl = ''''\<rparr>"

definition item3 :: "nat video" where
  "item3 = \<lparr>video_id = 3, title = ''Quiet Garden'',
     description = ''a calm afternoon'', videoUrl = ''''\<rparr>"

definition alpha_item :: "nat video" where
  "alpha_item = \<lparr>video_id = 1, title = ''alpha'', description = '''', videoUrl = ''''\<rparr>"

definition beta_item :: "nat video" where
  "beta_item = \<lparr>video_id = 2, title = ''beta'', description = ''alpha alpha'', videoUrl = ''''\<rparr>"

section \<open>Audio helper functions of \<^verbatim>\<open>src/components/VideoPlayer.tsx\<close>\<close>

text \<open>
  A JavaScript number is a finite value, carried here exactly as a rational, a NaN or an
  infinity. The arithmetic of the helpers is exact on the values they meet: a single
  precision sample times \<open>32768\<close> is a double without rounding, and a 16-bit integer
  divided by \<open>32768\<close> is a single precision value without rounding, so storing it into a
  \<^verbatim>\<open>Float32Array\<close> keeps it.
\<close>

datatype number = Num rat | NaN | PosInf | NegInf

datatype js_error =
  TypeError | RangeError | InvalidCharacterError | InvalidStateError
  | NotSupportedError | IndexSizeError

text \<open>\<^verbatim>\<open>data[i] * 32768\<close>\<close>

fun times_32768 :: "number \<Rightarrow> number" where
  "times_32768 (Num q) = Num (q * 32768)"
| "times_32768 NaN = NaN"
| "times_32768 PosInf = PosInf"
| "times_32768 NegInf = NegInf"

text \<open>Rounding towards zero, the first step of the integer conversions of ECMAScript.\<close>

definition truncate_rat :: "rat \<Rightarrow> int" where
  "truncate_rat q = (if 0 \<le> q then \<lfloor>q\<rfloor> else \<lceil>q\<rceil>)"

text \<open>
  The store \<^verbatim>\<open>int16[i] = v\<close> into an \<^verbatim>\<open>Int16Array\<close> converts by \<^verbatim>\<open>ToInt16\<close>:
  NaN and the infinities become \<open>0\<close>; a finite value is truncated and taken modulo
  \<open>2\<^sup>1\<^sup>6\<close>, which is what \<^const>\<open>word_of_int\<close> does; \<^const>\<open>sint\<close> reads the
  element back as a signed integer.
\<close>

fun ToInt16 :: "number \<Rightarrow> 16 word" where
  "ToInt16 (Num q) = word_of_int (truncate_rat q)"
| "ToInt16 NaN = 0"
| "ToInt16 PosInf = 0"
| "ToInt16 NegInf = 0"

text \<open>The loop of \<^verbatim>\<open>createBlob\<close>: the \<^verbatim>\<open>Int16Array\<close> it fills.\<close>

definition createBlob_int16 :: "number list \<Rightarrow> 16 word list" where
  "createBlob_int16 data = map (\<lambda>x. ToInt16 (times_32768 x)) data"

text \<open>
  \<^verbatim>\<open>new Uint8Array(int16.buffer)\<close> views the same memory as bytes, in the byte order
  of the platform: little-endian, low byte first. \<^verbatim>\<open>new Int16Array(data.buffer)\<close> is the
  view in the other direction; it raises a \<^verbatim>\<open>RangeError\<close> when the byte length is odd.
\<close>

definition int16_bytes :: "16 word \<Rightarrow> 8 word list" where
  "int16_bytes w = [ucast w, ucast (drop_bit 8 w)]"

definition Uint8Array_of_int16 :: "16 word list \<Rightarrow> 8 word list" where
  "Uint8Array_of_int16 ws = concat (map int16_bytes ws)"

fun int16_of_bytes :: "8 word list \<Rightarrow> 16 word list" where
  "int16_of_bytes (lo # hi # rest) = (push_bit 8 (ucast hi) OR ucast lo) # int16_of_bytes rest"
| "int16_of_bytes _ = []"

definition Int16Array_of_bytes :: "8 word list \<Rightarrow> js_error + 16 word list" where
  "Int16Array_of_bytes bytes =
     (if even (length bytes) then Inr (int16_of_bytes bytes) else Inl RangeError)"

subsection \<open>The platform's \<^verbatim>\<open>btoa\<close> and \<^verbatim>\<open>atob\<close>\<close>

text \<open>
  A binary string is a string of code units below 256, here a list of bytes;
  \<^verbatim>\<open>String.fromCharCode\<close> and \<^verbatim>\<open>charCodeAt\<close> are the identity on this
  representation. \<^verbatim>\<open>btoa\<close> is the base64 encoding with padding; \<^verbatim>\<open>atob\<close> is the
  forgiving base64 decoding of the HTML standard, which raises an
  \<^verbatim>\<open>InvalidCharacterError\<close> on text that is not base64.
\<close>

definition b64_char :: "nat \<Rightarrow> char" where
  "b64_char n =
     (if n < 26 then char_of (65 + n)
      else if n < 52 then char_of (97 + (n - 26))
      else if n < 62 then char_of (48 + (n - 52))
      else if n = 62 then CHR ''+'' else CHR ''/'')"

definition b64_value :: "char \<Rightarrow> nat option" where
  "b64_value c =
     (let n = (of_char c :: nat)
      in if 65 \<le> n \<and> n \<le> 90 then Some (n - 65)
         else if 97 \<le> n \<and> n \<le> 122 then Some (n - 97 + 26)
         else if 48 \<le> n \<and> n \<le> 57 then Some (n - 48 + 52)
         else if n = 43 then Some 62
         else if n = 47 then Some 63
         else None)"

text \<open>The 6-bit groups of a byte sequence; a last group is filled with zero bits.\<close>

fun sextets :: "8 word list \<Rightarrow> nat list" where
  "sextets (a # b # c # rest) =
     [unat a div 4, (unat a mod 4) * 16 + unat b div 16,
      (unat b mod 16) * 4 + unat c div 64, unat c mod 64] @ sextets rest"
| "sextets [a, b] =
     [unat a div 4, (unat a mod 4) * 16 + unat b div 16, (unat b mod 16) * 4]"
| "sextets [a] = [unat a div 4, (unat a mod 4) * 16]"
| "sextets [] = []"

definition btoa :: "8 word list \<Rightarrow> string" where
  "btoa binary =
     map b64_char (sextets binary) @ replicate ((3 - length binary mod 3) mod 3) CHR ''=''"

text \<open>The bytes of a sequence of 6-bit groups; the spare bits of a last group are dropped.\<close>

fun b64_bytes :: "nat list \<Rightarrow> 8 word list" where
  "b64_bytes (p # q # r # s # rest) =
     [of_nat (p * 4 + q div 16), of_nat ((q mod 16) * 16 + r div 4),
      of_nat ((r mod 4) * 64 + s)] @ b64_bytes rest"
| "b64_bytes [p, q, r] = [of_nat (p * 4 + q div 16), of_nat ((q mod 16) * 16 + r div 4)]"
| "b64_bytes [p, q] = [of_nat (p * 4 + q div 16)]"
| "b64_bytes _ = []"

definition is_ascii_whitespace :: "char \<Rightarrow> bool" where
  "is_ascii_whitespace c =
     (let n = (of_char c :: nat) in n = 9 \<or> n = 10 \<or> n = 12 \<or> n = 13 \<or> n = 32)"

definition strip_padding :: "string \<Rightarrow> string" where
  "strip_padding s =
     (if length s mod 4 = 0 then
        (case rev s of
           c1 # c2 # r \<Rightarrow>
             if c1 = CHR ''='' \<and> c2 = CHR ''='' then rev r
             else if c1 = CHR ''='' then rev (c2 # r) else s
         | [c1] \<Rightarrow> if c1 = CHR ''='' then [] else s
         | [] \<Rightarrow> s)
      else s)"

fun those_values :: "char list \<Rightarrow> nat list option" where
  "those_values [] = Some []"
| "those_values (c # cs) =
     (case b64_value c of
        None \<Rightarrow> None
      | Some v \<Rightarrow> (case those_values cs of None \<Rightarrow> None | Some vs \<Rightarrow> Some (v # vs)))"

definition atob :: "string \<Rightarrow> js_error + 8 word list" where
  "atob base64 =
     (let s = strip_padding (filter (\<lambda>c. \<not> is_ascii_whitespace c) base64)
      in if length s mod 4 = 1 then Inl InvalidCharacterError
         else (case those_values s of
                 None \<Rightarrow> Inl InvalidCharacterError
               | Some vs \<Rightarrow> Inr (b64_bytes vs)))"

subsection \<open>\<^verbatim>\<open>createBlob\<close>, \<^verbatim>\<open>decode\<close> and \<^verbatim>\<open>decodeAudioData\<close>\<close>

record blob =
  data :: string
  mimeType :: string

text \<open>
  \<^verbatim>\<open>String.fromCharCode(...new Uint8Array(int16.buffer))\<close> spreads the bytes: each byte
  is one argument of a single call. An engine accepts only so many arguments in a call
  and raises a \<^verbatim>\<open>RangeError\<close> beyond that number, which depends on the engine and is a
  parameter here. \<^verbatim>\<open>createBlob\<close> has no \<^verbatim>\<open>try\<close>, so the error leaves it.
\<close>

definition fromCharCode_spread :: "nat \<Rightarrow> 8 word list \<Rightarrow> js_error + 8 word list" where
  "fromCharCode_spread argumentLimit bytes =
     (if length bytes \<le> argumentLimit then Inr bytes else Inl RangeError)"

definition createBlob :: "nat \<Rightarrow> number list \<Rightarrow> js_error + blob" where
  "createBlob argumentLimit samples =
     (let int16 = createBlob_int16 samples
      in case fromCharCode_spread argumentLimit (Uint8Array_of_int16 int16) of
           Inl e \<Rightarrow> Inl e
         | Inr binary \<Rightarrow>
             let base64 = btoa binary
             in Inr \<lparr>data = base64, mimeType = ''audio/pcm;rate=16000''\<rparr>)"

definition decode :: "string \<Rightarrow> js_error + 8 word list" where
  "decode base64 = atob base64"

text \<open>
  An \<^verbatim>\<open>AudioBuffer\<close>: one \<^verbatim>\<open>Float32Array\<close> for each channel and the sample rate.
  \<^verbatim>\<open>getChannelData\<close> raises an \<^verbatim>\<open>IndexSizeError\<close> for a channel the buffer does not
  have; \<^verbatim>\<open>duration\<close> is the number of frames over the sample rate.
\<close>

record audio_buffer =
  channels :: "number list list"
  sampleRate :: rat

definition getChannelData :: "audio_buffer \<Rightarrow> nat \<Rightarrow> js_error + number list" where
  "getChannelData buffer channel =
     (if channel < length (channels buffer) then Inr (channels buffer ! channel)
      else Inl IndexSizeError)"

definition frames :: "audio_buffer \<Rightarrow> nat" where
  "frames buffer = (case channels buffer of [] \<Rightarrow> 0 | c # _ \<Rightarrow> length c)"

definition duration :: "audio_buffer \<Rightarrow> rat" where
  "duration buffer = of_nat (frames buffer) / sampleRate buffer"

text \<open>
  The audio context is an argument of \<^verbatim>\<open>decodeAudioData\<close>; the helper calls its
  \<^verbatim>\<open>createBuffer(numChannels, frameCount, sampleRate)\<close>, a function of the platform,
  which either allocates a buffer or raises. The context of the player may be
  \<^verbatim>\<open>null\<close>, and a method call on \<^verbatim>\<open>null\<close> raises a \<^verbatim>\<open>TypeError\<close>.
\<close>

record audio_context =
  context_id :: nat
  createBuffer :: "nat \<Rightarrow> number \<Rightarrow> rat \<Rightarrow> js_error + audio_buffer"

text \<open>\<^verbatim>\<open>dataInt16.length / numChannels\<close>\<close>

definition frameCount_of :: "nat \<Rightarrow> nat \<Rightarrow> number" where
  "frameCount_of len numChannels =
     (if numChannels = 0 then (if len = 0 then NaN else PosInf)
      else Num (of_nat len / of_nat numChannels))"

text \<open>
  \<^verbatim>\<open>dataInt16[j] / 32768.0\<close>: a read past the end of the array is \<^verbatim>\<open>undefined\<close>,
  and the quotient is then NaN.
\<close>

definition int16_over_32768 :: "16 word \<Rightarrow> number" where
  "int16_over_32768 w = Num (of_int (sint w) / 32768)"

definition sample_at :: "16 word list \<Rightarrow> nat \<Rightarrow> number" where
  "sample_at dataInt16 j =
     (if j < length dataInt16 then int16_over_32768 (dataInt16 ! j) else NaN)"

text \<open>
  The inner loop, from index \<open>i\<close> on. It is reached for a positive number of
  channels only, and its test \<^verbatim>\<open>i < frameCount\<close> is then
  \<open>i * numChannels < length dataInt16\<close>. A store past the end of a typed array is ignored, as
  \<^const>\<open>list_update\<close> does.
\<close>

function fill_channel ::
  "16 word list \<Rightarrow> nat \<Rightarrow> nat \<Rightarrow> nat \<Rightarrow> number list \<Rightarrow> number list" where
  "fill_channel dataInt16 numChannels channel i channelData =
     (if 0 < numChannels \<and> i * numChannels < length dataInt16
      then fill_channel dataInt16 numChannels channel (Suc i)
             (channelData[i := sample_at dataInt16 (i * numChannels + channel)])
      else channelData)"
  by pat_completeness auto
termination
proof (relation "measure (\<lambda>(d, n, c, i, cd). length d - i)")
  show "wf (measure (\<lambda>(d, n, c, i, cd). length d - i))"
    by simp
next
  fix dataInt16 :: "16 word list" and numChannels channel i :: nat
    and channelData :: "number list"
  assume a: "0 < numChannels \<and> i * numChannels < length dataInt16"
  then have b: "i * numChannels < length dataInt16"
    by simp
  from a have "i \<le> i * numChannels"
    by simp
  from this b have "i < length dataInt16"
    by (rule le_less_trans)
  then show
    "((dataInt16, numChannels, channel, Suc i,
       channelData[i := sample_at dataInt16 (i * numChannels + channel)]),
      (dataInt16, numChannels, channel, i, channelData))
     \<in> measure (\<lambda>(d, n, c, i, cd). length d - i)"
    by simp
qed

text \<open>The outer loop, over the channels from \<open>channel\<close> on.\<close>

function fill_channels ::
  "16 word list \<Rightarrow> nat \<Rightarrow> nat \<Rightarrow> audio_buffer \<Rightarrow> js_error + audio_buffer" where
  "fill_channels dataInt16 numChannels channel buffer =
     (if channel < numChannels then
        (case getChannelData buffer channel of
           Inl e \<Rightarrow> Inl e
         | Inr channelData \<Rightarrow>
             fill_channels dataInt16 numChannels (Suc channel)
               (buffer\<lparr>channels := (channels buffer)
                  [channel := fill_channel dataInt16 numChannels channel 0 channelData]\<rparr>))
      else Inr buffer)"
  by pat_completeness auto
termination
  by (relation "measure (\<lambda>(d, n, c, b). n - c)") auto

declare fill_channel.simps [simp del] fill_channels.simps [simp del]

definition decodeAudioData ::
  "8 word list \<Rightarrow> audio_context option \<Rightarrow> rat \<Rightarrow> nat \<Rightarrow> js_error + audio_buffer" where
  "decodeAudioData bytes ctx rate numChannels =
     (case Int16Array_of_bytes bytes of
        Inl e \<Rightarrow> Inl e
      | Inr dataInt16 \<Rightarrow>
          (case ctx of
             None \<Rightarrow> Inl TypeError
           | Some c \<Rightarrow>
               (case createBuffer c numChannels
                       (frameCount_of (length dataInt16) numChannels) rate of
                  Inl e \<Rightarrow> Inl e
                | Inr buffer \<Rightarrow> fill_channels dataInt16 numChannels 0 buffer)))"

text \<open>
  A context whose \<^verbatim>\<open>createBuffer\<close> allocates silence for every whole, finite number of
  frames, and the 16-bit quantisation the round trip is about: a sample \<open>k / 32768\<close>
  with \<open>k\<close> a signed 16-bit integer.
\<close>

definition allocate :: "nat \<Rightarrow> number \<Rightarrow> rat \<Rightarrow> js_error + audio_buffer" where
  "allocate numChannels frameCount rate =
     (case frameCount of
        Num q \<Rightarrow>
          if 0 \<le> q \<and> of_int \<lfloor>q\<rfloor> = q
          then Inr \<lparr>channels = replicate numChannels (replicate (nat \<lfloor>q\<rfloor>) (Num 0)),
                    sampleRate = rate\<rparr>
          else Inl NotSupportedError
      | _ \<Rightarrow> Inl NotSupportedError)"

text \<open>
  What \<^verbatim>\<open>decodeAudioData\<close> needs of the context it is given: that
  \<^verbatim>\<open>createBuffer\<close> returns a buffer of the channels and frames asked for.
\<close>

definition allocates :: "audio_context \<Rightarrow> nat \<Rightarrow> nat \<Rightarrow> rat \<Rightarrow> bool" where
  "allocates ctx numChannels n rate =
     (case createBuffer ctx numChannels (Num (of_nat n)) rate of
        Inl e \<Rightarrow> False
      | Inr buffer \<Rightarrow>
          length (channels buffer) = numChannels
          \<and> list_all (\<lambda>c. length c = n) (channels buffer))"

text \<open>
  \<^verbatim>\<open>createBuffer\<close> as the Web Audio standard has it: the frame count is converted to
  an unsigned 32-bit integer (NaN and the infinities to \<open>0\<close>, else truncated and reduced
  modulo \<open>2\<^sup>3\<^sup>2\<close>), and a \<^verbatim>\<open>NotSupportedError\<close> is raised when the number of channels or
  the length is zero, when there are more than 32 channels, or when the rate is outside
  the range the implementation supports, which is a parameter. Every implementation
  supports the rates from 8000 to 96000.
\<close>

definition web_audio_createBuffer ::
  "rat \<Rightarrow> rat \<Rightarrow> nat \<Rightarrow> number \<Rightarrow> rat \<Rightarrow> js_error + audio_buffer" where
  "web_audio_createBuffer lowest highest numChannels frameCount rate =
     (let len = (case frameCount of
                   Num q \<Rightarrow> nat (truncate_rat q mod 4294967296)
                 | _ \<Rightarrow> 0)
      in if numChannels = 0 \<or> 32 < numChannels \<or> len = 0 \<or> rate < lowest \<or> highest < rate
         then Inl NotSupportedError
         else Inr \<lparr>channels = replicate numChannels (replicate len (Num 0)),
                   sampleRate = rate\<rparr>)"

definition browser_context :: audio_context where
  "browser_context = \<lparr>context_id = 9, createBuffer = web_audio_createBuffer 8000 96000\<rparr>"

definition test_context :: audio_context where
  "test_context = \<lparr>context_id = 0, createBuffer = allocate\<rparr>"

definition quantized16 :: "number \<Rightarrow> bool" where
  "quantized16 x =
     (case x of
        Num q \<Rightarrow> of_int \<lfloor>q * 32768\<rfloor> = q * 32768
                  \<and> - 32768 \<le> \<lfloor>q * 32768\<rfloor> \<and> \<lfloor>q * 32768\<rfloor> \<le> 32767
      | _ \<Rightarrow> False)"

section \<open>The live session of the player\<close>

text \<open>
  The component keeps its session in mutable cells (\<^verbatim>\<open>useRef\<close>) and three flags of
  React state. The model is one record of these, together with what the platform holds
  for the component: the calls made on audio contexts, source nodes, timers and tracks,
  in order (\<open>effects\<close>), the number of source nodes created so far, which gives each
  node returned by \<^verbatim>\<open>createBufferSource\<close> its identity, and the number of calls of
  \<^verbatim>\<open>connect\<close> that are suspended at \<^verbatim>\<open>await getUserMedia\<close>. Times are readings of
  \<^verbatim>\<open>AudioContext.currentTime\<close>, in seconds, carried as rationals: the one sum the
  scheduler computes, \<^verbatim>\<open>startTime + audioBuffer.duration\<close>, is taken without the rounding
  of a double.
\<close>

record media_stream =
  stream_id :: nat
  tracks :: "nat list"

datatype effect =
  NewAudioContext nat
  | ContextResume nat
  | ContextClose nat
  | StreamAcquired nat
  | TrackStop nat
  | LiveConnect nat
  | SetInterval nat
  | ClearInterval nat
  | SourceStart nat rat rat
  | SourceStop nat

text \<open>
  \<open>SourceStart n t d\<close> is \<^verbatim>\<open>source.start(t)\<close> on node \<open>n\<close>, whose buffer lasts \<open>d\<close>
  seconds. \<^verbatim>\<open>sourcesRef\<close> is a \<^verbatim>\<open>Set\<close>: a list without repetition in the order
  of insertion, which is the order of \<^verbatim>\<open>forEach\<close>.
\<close>

record player =
  connected :: bool
  isConnecting :: bool
  micActive :: bool
  audioContextRef :: "audio_context option"
  inputContextRef :: "audio_context option"
  sessionRef :: "nat option"
  streamRef :: "media_stream option"
  videoIntervalRef :: "nat option"
  nextStartTimeRef :: rat
  sourcesRef :: "nat list"
  effects :: "effect list"
  nodesCreated :: nat
  awaitingMicrophone :: nat

definition idle :: player where
  "idle = \<lparr>connected = False, isConnecting = False, micActive = False,
     audioContextRef = None, inputContextRef = None, sessionRef = None, streamRef = None,
     videoIntervalRef = None, nextStartTimeRef = 0, sourcesRef = [], effects = [],
     nodesCreated = 0, awaitingMicrophone = 0\<rparr>"

definition call :: "effect list \<Rightarrow> player \<Rightarrow> player" where
  "call es s = s\<lparr>effects := effects s @ es\<rparr>"

subsection \<open>\<^verbatim>\<open>disconnect\<close>\<close>

text \<open>
  Each step of \<^verbatim>\<open>disconnect\<close> tests its cell for a truthy value: an object is truthy,
  \<^verbatim>\<open>null\<close> is not, and neither is the number \<open>0\<close> (\<^verbatim>\<open>setInterval\<close> returns positive
  handles). \<^verbatim>\<open>source.stop()\<close> is called inside \<^verbatim>\<open>try\<close> with an empty \<^verbatim>\<open>catch\<close>;
  \<^verbatim>\<open>close()\<close> returns a promise and \<^verbatim>\<open>track.stop()\<close> does not raise, so no step of
  \<^verbatim>\<open>disconnect\<close> lets an exception escape.
\<close>

definition release_session :: "player \<Rightarrow> player" where
  "release_session s = (case sessionRef s of None \<Rightarrow> s | Some p \<Rightarrow> s\<lparr>sessionRef := None\<rparr>)"

definition release_timer :: "player \<Rightarrow> player" where
  "release_timer s =
     (case videoIntervalRef s of
        None \<Rightarrow> s
      | Some h \<Rightarrow> if h = 0 then s else call [ClearInterval h] (s\<lparr>videoIntervalRef := None\<rparr>))"

definition stop_sources :: "player \<Rightarrow> player" where
  "stop_sources s = call (map SourceStop (sourcesRef s)) (s\<lparr>sourcesRef := []\<rparr>)"

definition close_output :: "player \<Rightarrow> player" where
  "close_output s =
     (case audioContextRef s of
        None \<Rightarrow> s
      | Some c \<Rightarrow> call [ContextClose (context_id c)] (s\<lparr>audioContextRef := None\<rparr>))"

definition close_input :: "player \<Rightarrow> player" where
  "close_input s =
     (case inputContextRef s of
        None \<Rightarrow> s
      | Some c \<Rightarrow> call [ContextClose (context_id c)] (s\<lparr>inputContextRef := None\<rparr>))"

definition stop_tracks :: "player \<Rightarrow> player" where
  "stop_tracks s =
     (case streamRef s of
        None \<Rightarrow> s
      | Some m \<Rightarrow> call (map TrackStop (tracks m)) (s\<lparr>streamRef := None\<rparr>))"

definition reset_flags :: "player \<Rightarrow> player" where
  "reset_flags s = s\<lparr>connected := False, isConnecting := False, micActive := False\<rparr>"

definition disconnect :: "player \<Rightarrow> player" where
  "disconnect s =
     reset_flags (stop_tracks (close_input (close_output (stop_sources
       (release_timer (release_session s))))))"

subsection \<open>\<^verbatim>\<open>connect\<close>\<close>

text \<open>
  \<^verbatim>\<open>connect\<close> runs in two parts. The first ends at \<^verbatim>\<open>await getUserMedia\<close>: the
  guard, the flag, the output context made by the platform and its clock reading as the
  first cursor. It returns the new state and whether the call is now suspended. The
  second part runs when the microphone is granted or refused, whatever happened in
  between: a refusal is caught and ends in \<^verbatim>\<open>disconnect\<close>; a grant stores the stream,
  the input context, the session promise and the handle of the frame timer, all made by
  the platform. The constructors and \<^verbatim>\<open>ai.live.connect\<close> are taken to return.
\<close>

definition connect_begin :: "player \<Rightarrow> audio_context \<Rightarrow> rat \<Rightarrow> player \<times> bool" where
  "connect_begin s outputContext currentTime =
     (if connected s \<or> isConnecting s then (s, False)
      else (call [NewAudioContext (context_id outputContext)]
              (s\<lparr>isConnecting := True, audioContextRef := Some outputContext,
                 nextStartTimeRef := currentTime,
                 awaitingMicrophone := Suc (awaitingMicrophone s)\<rparr>), True))"

definition connect_resume ::
  "player \<Rightarrow> js_error + media_stream \<Rightarrow> audio_context \<Rightarrow> nat \<Rightarrow> nat \<Rightarrow> player" where
  "connect_resume s microphone inputContext sessionPromise timer =
     (if awaitingMicrophone s = 0 then s
      else
        let s1 = s\<lparr>awaitingMicrophone := awaitingMicrophone s - 1\<rparr>
        in (case microphone of
              Inl err \<Rightarrow> disconnect (s1\<lparr>isConnecting := False\<rparr>)
            | Inr stream \<Rightarrow>
                call [StreamAcquired (stream_id stream),
                      NewAudioContext (context_id inputContext),
                      LiveConnect sessionPromise, SetInterval timer]
                  (s1\<lparr>streamRef := Some stream, inputContextRef := Some inputContext,
                      sessionRef := Some sessionPromise, videoIntervalRef := Some timer\<rparr>)))"

definition onopen :: "player \<Rightarrow> player" where
  "onopen s = s\<lparr>connected := True, isConnecting := False, micActive := True\<rparr>"

text \<open>The callbacks \<^verbatim>\<open>onclose\<close> and \<^verbatim>\<open>onerror\<close> of the session call \<^verbatim>\<open>disconnect\<close>.\<close>

definition onclose :: "player \<Rightarrow> player" where
  "onclose s = disconnect s"

definition onerror :: "player \<Rightarrow> player" where
  "onerror s = disconnect s"

text \<open>
  The timers that were set and not cleared, and the tracks of the acquired streams among
  \<open>streams\<close> that were not stopped.
\<close>

definition live_timers :: "player \<Rightarrow> nat list" where
  "live_timers s =
     filter (\<lambda>h. \<not> List.member (effects s) (ClearInterval h))
       (concat (map (\<lambda>e. case e of SetInterval h \<Rightarrow> [h] | _ \<Rightarrow> []) (effects s)))"

definition live_tracks :: "player \<Rightarrow> media_stream list \<Rightarrow> nat list" where
  "live_tracks s streams =
     filter (\<lambda>t. \<not> List.member (effects s) (TrackStop t))
       (concat (map tracks
          (filter (\<lambda>m. List.member (effects s) (StreamAcquired (stream_id m))) streams)))"

subsection \<open>\<^verbatim>\<open>onmessage\<close>\<close>

text \<open>
  A server message, as far as the callback reads it: the inline data of the first part
  of the model turn, if any, and the interruption flag. What the callback reads from
  the platform while it runs: whether the output context is suspended, whether
  \<^verbatim>\<open>resume()\<close> is rejected, and the clock of the output context where the chunk is
  scheduled and where the interruption resets the cursor.
\<close>

record message =
  inlineData :: "string option"
  interrupted :: bool

record readings =
  suspended :: bool
  resume_rejected :: "js_error option"
  time_at_schedule :: rat
  time_at_interrupt :: rat

text \<open>
  The result of one call: the state after it, the start time and the duration of the
  chunk it scheduled, the error its \<^verbatim>\<open>catch\<close> logged, and the error that escaped.
\<close>

record outcome =
  after :: player
  scheduled :: "(rat \<times> rat) option"
  caught :: "js_error option"
  thrown :: "js_error option"

definition set_add :: "nat list \<Rightarrow> nat \<Rightarrow> nat list" where
  "set_add xs x = (if List.member xs x then xs else xs @ [x])"

text \<open>\<^verbatim>\<open>source.onended\<close>\<close>

definition onended :: "player \<Rightarrow> nat \<Rightarrow> player" where
  "onended s source = s\<lparr>sourcesRef := removeAll source (sourcesRef s)\<rparr>"

text \<open>
  The block from \<^verbatim>\<open>createBufferSource\<close> to \<^verbatim>\<open>sourcesRef.current.add\<close>, on a context
  that is not \<^verbatim>\<open>null\<close>. The new node is connected to the gain node of the output
  context; that call and the audio level of the display have no part in the state and
  are left out.
\<close>

definition schedule :: "player \<Rightarrow> audio_buffer \<Rightarrow> rat \<Rightarrow> player \<times> rat" where
  "schedule s audioBuffer currentTime =
     (let source = nodesCreated s;
          startTime = max (nextStartTimeRef s) currentTime
      in (call [SourceStart source startTime (duration audioBuffer)]
            (s\<lparr>nodesCreated := Suc source,
               nextStartTimeRef := startTime + duration audioBuffer,
               sourcesRef := set_add (sourcesRef s) source\<rparr>),
          startTime))"

definition dropped :: "player \<Rightarrow> js_error \<Rightarrow> outcome" where
  "dropped s e = \<lparr>after = s, scheduled = None, caught = Some e, thrown = None\<rparr>"

text \<open>
  The rest of the \<^verbatim>\<open>try\<close> block once \<^verbatim>\<open>await decodeAudioData\<close> has given the
  buffer: \<^verbatim>\<open>createBufferSource\<close> is called on whatever the context cell holds by then.
\<close>

definition schedule_or_drop :: "player \<Rightarrow> readings \<Rightarrow> audio_buffer \<Rightarrow> outcome" where
  "schedule_or_drop s env audioBuffer =
     (case audioContextRef s of
        None \<Rightarrow> dropped s TypeError
      | Some c \<Rightarrow>
          let (s', startTime) = schedule s audioBuffer (time_at_schedule env)
          in \<lparr>after = s', scheduled = Some (startTime, duration audioBuffer),
              caught = None, thrown = None\<rparr>)"

text \<open>The first \<^verbatim>\<open>if\<close> of the callback, with its \<^verbatim>\<open>try\<close> and \<^verbatim>\<open>catch\<close>.\<close>

definition onmessage_audio :: "player \<Rightarrow> readings \<Rightarrow> message \<Rightarrow> outcome" where
  "onmessage_audio s env msg =
     (case inlineData msg of
        None \<Rightarrow> \<lparr>after = s, scheduled = None, caught = None, thrown = None\<rparr>
      | Some base64Audio \<Rightarrow>
          if base64Audio = [] then \<lparr>after = s, scheduled = None, caught = None, thrown = None\<rparr>
          else
            let s1 = (case audioContextRef s of
                        None \<Rightarrow> s
                      | Some c \<Rightarrow> if suspended env then call [ContextResume (context_id c)] s
                                  else s);
                rejected = (if audioContextRef s \<noteq> None \<and> suspended env
                            then resume_rejected env else None)
            in case rejected of
                 Some e \<Rightarrow> dropped s1 e
               | None \<Rightarrow>
                 (case decode base64Audio of
                    Inl e \<Rightarrow> dropped s1 e
                  | Inr bytes \<Rightarrow>
                      (case decodeAudioData bytes (audioContextRef s1) 24000 1 of
                         Inl e \<Rightarrow> dropped s1 e
                       | Inr audioBuffer \<Rightarrow> schedule_or_drop s1 env audioBuffer)))"

text \<open>
  The second \<^verbatim>\<open>if\<close>: stop every source of the set, clear the set, and read the clock
  of the output context into the cursor. The read is a property access on
  \<^verbatim>\<open>audioContextRef.current\<close>, outside any \<^verbatim>\<open>try\<close>: on \<^verbatim>\<open>null\<close> it raises a
  \<^verbatim>\<open>TypeError\<close> that leaves the callback. A node of the set has been started before it
  was added, and \<^verbatim>\<open>stop()\<close> on a started node does not raise.
\<close>

definition interrupt :: "player \<Rightarrow> rat \<Rightarrow> player \<times> js_error option" where
  "interrupt s currentTime =
     (let s1 = call (map SourceStop (sourcesRef s)) s;
          s2 = s1\<lparr>sourcesRef := []\<rparr>
      in case audioContextRef s2 of
           None \<Rightarrow> (s2, Some TypeError)
         | Some c \<Rightarrow> (s2\<lparr>nextStartTimeRef := currentTime\<rparr>, None))"

definition interrupt_if_flagged :: "outcome \<Rightarrow> readings \<Rightarrow> message \<Rightarrow> outcome" where
  "interrupt_if_flagged r env msg =
     (if interrupted msg
      then (let (s', err) = interrupt (after r) (time_at_interrupt env)
            in r\<lparr>after := s', thrown := err\<rparr>)
      else r)"

text \<open>
  One call of \<^verbatim>\<open>onmessage\<close>, taken as one step. Its two \<^verbatim>\<open>await\<close>s come before the
  scheduling block; that block and the interruption after it run without suspension.
\<close>

definition onmessage :: "player \<Rightarrow> readings \<Rightarrow> message \<Rightarrow> outcome" where
  "onmessage s env msg = interrupt_if_flagged (onmessage_audio s env msg) env msg"

text \<open>
  A call that is suspended at \<^verbatim>\<open>await decodeAudioData\<close> holds its buffer; when it goes
  on, in a state that other callbacks may have changed, what remains of it is the
  scheduling block and the interruption.
\<close>

definition resume_after_decode ::
  "player \<Rightarrow> readings \<Rightarrow> message \<Rightarrow> audio_buffer \<Rightarrow> outcome" where
  "resume_after_decode s env msg audioBuffer =
     interrupt_if_flagged (schedule_or_drop s env audioBuffer) env msg"

text \<open>
  A run of messages: the state after them, and for each chunk scheduled on the way the
  clock reading, the start time and the duration, in the order of scheduling.
\<close>

fun run :: "player \<Rightarrow> (readings \<times> message) list \<Rightarrow> player" where
  "run s [] = s"
| "run s ((env, msg) # rest) = run (after (onmessage s env msg)) rest"

fun play :: "player \<Rightarrow> (readings \<times> message) list \<Rightarrow> (rat \<times> rat \<times> rat) list" where
  "play s [] = []"
| "play s ((env, msg) # rest) =
     (let r = onmessage s env msg
      in (case scheduled r of
            None \<Rightarrow> []
          | Some (startTime, d) \<Rightarrow> [(time_at_schedule env, startTime, d)])
         @ play (after r) rest)"

text \<open>
  The claim of a serial timeline, on such a list from a cursor \<open>c\<close>: each chunk starts
  no earlier than the clock reading at its scheduling, the first no earlier than \<open>c\<close>,
  and each further one no earlier than the start of the one before plus its duration.
\<close>

fun gapless :: "rat \<Rightarrow> (rat \<times> rat \<times> rat) list \<Rightarrow> bool" where
  "gapless c [] = True"
| "gapless c ((now, startTime, d) # rest) =
     (c \<le> startTime \<and> now \<le> startTime \<and> gapless (startTime + d) rest)"

subsection \<open>States and messages of the examples\<close>

definition test_input_context :: audio_context where
  "test_input_context = \<lparr>context_id = 1, createBuffer = allocate\<rparr>"

definition microphone :: media_stream where
  "microphone = \<lparr>stream_id = 7, tracks = [70]\<rparr>"

definition established_session :: player where
  "established_session =
     onopen (connect_resume (fst (connect_begin idle test_context 0))
               (Inr microphone) test_input_context 1 5)"

text \<open>A chunk of two frames (four zero bytes), an interruption, and clock readings.\<close>

definition chunk :: message where
  "chunk = \<lparr>inlineData = Some ''AAAAAA=='', interrupted = False\<rparr>"

definition interruption :: message where
  "interruption = \<lparr>inlineData = None, interrupted = True\<rparr>"

definition at_time :: "rat \<Rightarrow> readings" where
  "at_time t = \<lparr>suspended = False, resume_rejected = None,
     time_at_schedule = t, time_at_interrupt = t\<rparr>"

definition playing_session :: player where
  "playing_session = run established_session [(at_time 0, chunk), (at_time 1, chunk)]"

text \<open>
  A session in which an interruption arrives between two chunks, and a player whose
  companion is opened, closed and opened again while the first request for the
  microphone is still pending, after which both requests are granted.
\<close>

definition interrupted_session :: "(readings \<times> message) list" where
  "interrupted_session =
     [(at_time 0, chunk), (at_time (1 / 24000), interruption), (at_time (1 / 20000), chunk)]"

definition second_output_context :: audio_context where
  "second_output_context = \<lparr>context_id = 2, createBuffer = allocate\<rparr>"

definition second_input_context :: audio_context where
  "second_input_context = \<lparr>context_id = 3, createBuffer = allocate\<rparr>"

definition second_microphone :: media_stream where
  "second_microphone = \<lparr>stream_id = 8, tracks = [80]\<rparr>"

definition reopened_while_pending :: player where
  "reopened_while_pending =
     (let s1 = fst (connect_begin idle test_context 0);
          s2 = disconnect s1;
          s3 = fst (connect_begin s2 second_output_context 0);
          s4 = connect_resume s3 (Inr microphone) test_input_context 1 5
      in connect_resume s4 (Inr second_microphone) second_input_context 2 6)"

text \<open>
  A session that is fully set up: connected, every cell filled, a positive timer handle,
  two distinct contexts, and no repetition among the tracks or the sources.
\<close>

definition established :: "player \<Rightarrow> bool" where
  "established s =
     (connected s \<and>
      (case audioContextRef s of
         None \<Rightarrow> False
       | Some out \<Rightarrow>
           (case inputContextRef s of
              None \<Rightarrow> False
            | Some inp \<Rightarrow>
                (case streamRef s of
                   None \<Rightarrow> False
                 | Some m \<Rightarrow>
                     (case videoIntervalRef s of
                        None \<Rightarrow> False
                      | Some h \<Rightarrow>
                          0 < h \<and> sessionRef s \<noteq> None
                          \<and> context_id out \<noteq> context_id inp
                          \<and> distinct (tracks m) \<and> distinct (sourcesRef s))))))"

text \<open>What a torn down player looks like: flags off, cells empty, no source.\<close>

definition cleared :: "player \<Rightarrow> bool" where
  "cleared s =
     (\<not> connected s \<and> \<not> isConnecting s \<and> \<not> micActive s
      \<and> sessionRef s = None \<and> videoIntervalRef s = None \<and> sourcesRef s = []
      \<and> audioContextRef s = None \<and> inputContextRef s = None \<and> streamRef s = None)"

section \<open>Properties of the recommendation logic\<close>

text \<open>
  C7. The score of an item against itself is \<open>-1\<close>; the score of two items with
  distinct identifiers is a non-negative integer; and a catalogue that holds nothing but
  the playing video (any number of times) gives no "up next" and no further videos.
\<close>

theorem relevance_identity_and_range:
  "calculateRelevance x x = - 1 \<and>
   (video_id a \<noteq> video_id b \<longrightarrow> 0 \<le> calculateRelevance a b) \<and>
   ((\<forall>v \<in> set catalog. video_id v = video_id x) \<longrightarrow>
      recommend x catalog = \<lparr>upNext = None, moreVideos = []\<rparr>)"
proof (intro conjI impI)
  show "calculateRelevance x x = - 1"
    by (simp add: calculateRelevance_def)
next
  assume "video_id a \<noteq> video_id b"
  then show "0 \<le> calculateRelevance a b"
    by (simp add: calculateRelevance_def Let_def)
next
  assume "\<forall>v \<in> set catalog. video_id v = video_id x"
  then have "filter (\<lambda>v. video_id v \<noteq> video_id x) catalog = []"
    by (simp add: filter_empty_conv)
  then show "recommend x catalog = \<lparr>upNext = None, moreVideos = []\<rparr>"
    by (simp add: recommend_def)
qed

theorem relevance_identity_and_range_witness:
  "calculateRelevance item1 item1 = - 1 \<and>
   video_id item1 \<noteq> video_id item2 \<and> 0 \<le> calculateRelevance item1 item2 \<and>
   list_all (\<lambda>v. video_id v = video_id item1) [item1, item1] \<and>
   recommend item1 [item1, item1] = \<lparr>upNext = None, moreVideos = []\<rparr>"
  using relevance_identity_and_range [of item1 item1 item2 "[item1, item1]"]
  by (simp add: item1_def item2_def)

text \<open>
  C8. In the catalogue of the scenario, played from item 1: item 2 scores at least 4 and
  strictly more than item 3, item 3 scores 0, and the selection is item 2 first with
  item 3 as the only further video.
\<close>

theorem relevance_scenario:
  "4 \<le> calculateRelevance item1 item2 \<and>
   calculateRelevance item1 item3 < calculateRelevance item1 item2 \<and>
   calculateRelevance item1 item3 = 0 \<and>
   recommend item1 [item1, item2, item3] = \<lparr>upNext = Some item2, moreVideos = [item3]\<rparr>"
  by code_simp

text \<open>
  C9. The score is not symmetric: there are two items with distinct identifiers whose
  scores differ with the direction, because a repeated word of the candidate counts each
  time while the words of the playing video form a set.
\<close>

theorem relevance_asymmetry:
  "\<exists>a b :: nat video.
     video_id a \<noteq> video_id b \<and> calculateRelevance a b \<noteq> calculateRelevance b a"
proof (intro exI conjI)
  show "video_id alpha_item \<noteq> video_id beta_item"
    by (simp add: alpha_item_def beta_item_def)
  have "calculateRelevance alpha_item beta_item = 2"
    by code_simp
  moreover have "calculateRelevance beta_item alpha_item = 1"
    by code_simp
  ultimately show
    "calculateRelevance alpha_item beta_item \<noteq> calculateRelevance beta_item alpha_item"
    by simp
qed

section \<open>Properties of the audio helper functions\<close>

subsection \<open>The two views of the sample memory\<close>

lemma int16_bytes_roundtrip:
  "push_bit 8 (ucast (ucast (drop_bit 8 w) :: 8 word)) OR ucast (ucast w :: 8 word) = (w :: 16 word)"
  by (rule bit_word_eqI) (auto simp: bit_simps)

lemma int16_of_bytes_Uint8Array: "int16_of_bytes (Uint8Array_of_int16 ws) = ws"
  by (induction ws) (simp_all add: Uint8Array_of_int16_def int16_bytes_def int16_bytes_roundtrip)

lemma length_Uint8Array: "length (Uint8Array_of_int16 ws) = 2 * length ws"
  by (induction ws) (simp_all add: Uint8Array_of_int16_def int16_bytes_def)

lemma Int16Array_of_Uint8Array: "Int16Array_of_bytes (Uint8Array_of_int16 ws) = Inr ws"
  by (simp add: Int16Array_of_bytes_def length_Uint8Array int16_of_bytes_Uint8Array)

subsection \<open>\<^verbatim>\<open>atob\<close> inverts \<^verbatim>\<open>btoa\<close>\<close>

lemma of_char_b64_char:
  "n < 64 \<Longrightarrow> (of_char (b64_char n) :: nat) =
     (if n < 26 then 65 + n else if n < 52 then 71 + n else if n < 62 then n - 4
      else if n = 62 then 43 else 47)"
  by (simp add: b64_char_def)

lemma b64_value_char: "n < 64 \<Longrightarrow> b64_value (b64_char n) = Some n"
  by (simp add: b64_value_def of_char_b64_char Let_def) arith

lemma b64_char_not_pad: "n < 64 \<Longrightarrow> b64_char n \<noteq> CHR ''=''"
proof
  assume "n < 64" and "b64_char n = CHR ''=''"
  then have "(of_char (CHR ''='') :: nat) = of_char (b64_char n)" by simp
  with \<open>n < 64\<close> show False
    by (simp add: of_char_b64_char split: if_splits)
qed

lemma b64_char_not_space: "n < 64 \<Longrightarrow> \<not> is_ascii_whitespace (b64_char n)"
  by (simp add: is_ascii_whitespace_def of_char_b64_char Let_def) arith

lemma unat_byte: "unat (a :: 8 word) < 256"
  using unsigned_less [of a, where 'a = nat] by simp

lemma sextet_bound1: "a < 256 \<Longrightarrow> a div 4 < (64::nat)"
  by simp

lemma sextet_bound2: "b < 256 \<Longrightarrow> (a mod 4) * 16 + b div 16 < (64::nat)"
proof -
  assume "b < 256"
  then have "b div 16 < 16" by simp
  moreover have "a mod 4 \<le> 3" by simp
  ultimately show ?thesis by linarith
qed

lemma sextet_bound3: "c < 256 \<Longrightarrow> (b mod 16) * 4 + c div 64 < (64::nat)"
proof -
  assume "c < 256"
  then have "c div 64 < 4" by simp
  moreover have "b mod 16 \<le> 15" by simp
  ultimately show ?thesis by linarith
qed

lemma sextet_bound4: "c mod 64 < (64::nat)"
  by simp

lemma sextet_bound5: "(a mod 4) * 16 < (64::nat)"
proof -
  have "a mod 4 \<le> 3" by simp
  then show ?thesis by linarith
qed

lemma sextet_bound6: "(b mod 16) * 4 < (64::nat)"
proof -
  have "b mod 16 \<le> 15" by simp
  then show ?thesis by linarith
qed

lemmas sextet_bounds =
  sextet_bound1 [OF unat_byte] sextet_bound2 [OF unat_byte] sextet_bound3 [OF unat_byte]
  sextet_bound4 sextet_bound5 sextet_bound6

lemma sextets_bound: "n \<in> set (sextets bs) \<Longrightarrow> n < 64"
proof (induction bs arbitrary: n rule: sextets.induct)
  case (1 a b c rest)
  from "1.prems" have
    "n = unat a div 4 \<or> n = (unat a mod 4) * 16 + unat b div 16 \<or>
     n = (unat b mod 16) * 4 + unat c div 64 \<or> n = unat c mod 64 \<or> n \<in> set (sextets rest)"
    by simp
  then show ?case
    using "1.IH" sextet_bounds by blast
next
  case (2 a b)
  then have "n = unat a div 4 \<or> n = (unat a mod 4) * 16 + unat b div 16 \<or>
     n = (unat b mod 16) * 4"
    by simp
  then show ?case
    using sextet_bounds by blast
next
  case (3 a)
  then have "n = unat a div 4 \<or> n = (unat a mod 4) * 16"
    by simp
  then show ?case
    using sextet_bounds by blast
next
  case 4
  then show ?case by simp
qed

lemma b64_join1: "b < 256 \<Longrightarrow> (a div 4) * 4 + ((a mod 4) * 16 + b div 16) div 16 = (a::nat)"
  by simp

lemma b64_join2: "b < 256 \<Longrightarrow> c < 256 \<Longrightarrow> (((a mod 4) * 16 + b div 16) mod 16) * 16 + ((b mod 16) * 4 + c div 64) div 4 = (b::nat)"
  by simp

lemma b64_join3: "c < 256 \<Longrightarrow> (((b mod 16) * 4 + c div 64) mod 4) * 64 + c mod 64 = (c::nat)"
  by simp

lemma b64_join1_last: "(a div 4) * 4 + ((a mod 4) * 16) div 16 = (a::nat)"
  by simp

lemma b64_join2_last: "b < 256 \<Longrightarrow> (((a mod 4) * 16 + b div 16) mod 16) * 16 + ((b mod 16) * 4) div 4 = (b::nat)"
  by simp

lemma of_nat_unat_byte: "(of_nat (unat a) :: 8 word) = a"
  by simp

lemmas b64_joins =
  b64_join1 [OF unat_byte] b64_join2 [OF unat_byte unat_byte] b64_join3 [OF unat_byte]
  b64_join1_last b64_join2_last [OF unat_byte]

lemma b64_bytes_sextets: "b64_bytes (sextets bs) = bs"
proof (induction bs rule: sextets.induct)
  case (1 a b c rest)
  have "b64_bytes (sextets (a # b # c # rest)) =
      [of_nat (unat a), of_nat (unat b), of_nat (unat c)] @ b64_bytes (sextets rest)"
    by (simp only: sextets.simps b64_bytes.simps append_Cons append_Nil b64_joins)
  with 1 show ?case
    by (simp only: of_nat_unat_byte append_Cons append_Nil)
next
  case (2 a b)
  have "b64_bytes (sextets [a, b]) = [of_nat (unat a), of_nat (unat b)]"
    by (simp only: sextets.simps b64_bytes.simps b64_joins)
  then show ?case
    by (simp only: of_nat_unat_byte)
next
  case (3 a)
  have "b64_bytes (sextets [a]) = [of_nat (unat a)]"
    by (simp only: sextets.simps b64_bytes.simps b64_joins)
  then show ?case
    by (simp only: of_nat_unat_byte)
next
  case 4
  show ?case by simp
qed

lemma length_sextets_mod:
  "length (sextets bs) mod 4 = (if length bs mod 3 = 0 then 0 else if length bs mod 3 = 1 then 2 else 3)"
  by (induction bs rule: sextets.induct) simp_all

lemma those_values_chars:
  "(\<And>n. n \<in> set ss \<Longrightarrow> n < 64) \<Longrightarrow> those_values (map b64_char ss) = Some ss"
  by (induction ss) (simp_all add: b64_value_char)

lemma strip_padding_none:
  assumes "length body mod 4 = 0" and "body = [] \<or> last body \<noteq> CHR ''=''"
  shows "strip_padding body = body"
proof (cases body rule: rev_cases)
  case Nil
  then show ?thesis by (simp add: strip_padding_def)
next
  case (snoc xs x)
  with assms have "x \<noteq> CHR ''=''" by simp
  with snoc show ?thesis
    by (simp add: strip_padding_def split: list.splits)
qed

lemma strip_padding_one:
  assumes "length body mod 4 = 3" and "last body \<noteq> CHR ''=''"
  shows "strip_padding (body @ [CHR ''='']) = body"
proof (cases body rule: rev_cases)
  case Nil
  with assms show ?thesis by simp
next
  case (snoc xs x)
  with assms have x: "x \<noteq> CHR ''=''" by simp
  from assms have "length (body @ [CHR ''='']) mod 4 = 0"
    by (simp add: mod_Suc)
  with snoc x show ?thesis
    by (simp add: strip_padding_def)
qed

lemma strip_padding_two:
  assumes "length body mod 4 = 2"
  shows "strip_padding (body @ [CHR ''='', CHR ''='']) = body"
proof -
  from assms have "length (body @ [CHR ''='', CHR ''='']) mod 4 = 0"
    by (simp add: mod_Suc)
  then show ?thesis
    by (simp add: strip_padding_def)
qed

lemma last_map_b64_char:
  assumes "\<And>n. n \<in> set ss \<Longrightarrow> n < 64" and "ss \<noteq> []"
  shows "last (map b64_char ss) \<noteq> CHR ''=''"
proof -
  from assms have "last ss < 64" by simp
  then show ?thesis using assms(2) by (simp add: last_map b64_char_not_pad)
qed

lemma strip_padding_btoa: "strip_padding (btoa bs) = map b64_char (sextets bs)"
proof -
  let ?body = "map b64_char (sextets bs)"
  have len: "length ?body mod 4 = (if length bs mod 3 = 0 then 0 else if length bs mod 3 = 1 then 2 else 3)"
    by (simp add: length_sextets_mod)
  have lst: "sextets bs \<noteq> [] \<Longrightarrow> last ?body \<noteq> CHR ''=''"
    by (rule last_map_b64_char) (simp_all add: sextets_bound)
  consider "length bs mod 3 = 0" | "length bs mod 3 = 1" | "length bs mod 3 = 2"
    by linarith
  then show ?thesis
  proof cases
    case 1
    with len have "length ?body mod 4 = 0" by simp
    moreover have "?body = [] \<or> last ?body \<noteq> CHR ''=''" using lst by auto
    ultimately have "strip_padding ?body = ?body" by (rule strip_padding_none)
    with 1 show ?thesis by (simp add: btoa_def)
  next
    case 2
    with len have "length ?body mod 4 = 2" by simp
    then have "strip_padding (?body @ [CHR ''='', CHR ''='']) = ?body" by (rule strip_padding_two)
    with 2 show ?thesis by (simp add: btoa_def numeral_2_eq_2)
  next
    case 3
    with len have l3: "length ?body mod 4 = 3" by simp
    then have "sextets bs \<noteq> []" by auto
    then have "last ?body \<noteq> CHR ''=''" by (rule lst)
    with l3 have "strip_padding (?body @ [CHR ''='']) = ?body" by (rule strip_padding_one)
    with 3 show ?thesis by (simp add: btoa_def)
  qed
qed

lemma filter_whitespace_btoa: "filter (\<lambda>c. \<not> is_ascii_whitespace c) (btoa bs) = btoa bs"
proof -
  have "\<not> is_ascii_whitespace CHR ''=''"
    by (simp add: is_ascii_whitespace_def)
  moreover have "\<And>c. c \<in> set (map b64_char (sextets bs)) \<Longrightarrow> \<not> is_ascii_whitespace c"
    using b64_char_not_space sextets_bound by auto
  ultimately show ?thesis
    by (auto simp: btoa_def filter_id_conv)
qed

lemma atob_btoa: "atob (btoa bs) = Inr bs"
proof -
  have "length (map b64_char (sextets bs)) mod 4 \<noteq> 1"
    by (simp add: length_sextets_mod)
  then show ?thesis
    by (simp add: atob_def filter_whitespace_btoa strip_padding_btoa
        those_values_chars sextets_bound b64_bytes_sextets)
qed

lemma length_bytes_createBlob:
  "length (Uint8Array_of_int16 (createBlob_int16 samples)) = 2 * length samples"
  by (simp add: length_Uint8Array createBlob_int16_def)

lemma createBlob_short:
  "2 * length samples \<le> argumentLimit \<Longrightarrow>
     createBlob argumentLimit samples =
       Inr \<lparr>data = btoa (Uint8Array_of_int16 (createBlob_int16 samples)),
            mimeType = ''audio/pcm;rate=16000''\<rparr>"
  by (simp add: createBlob_def fromCharCode_spread_def length_bytes_createBlob)

lemma createBlob_long:
  "argumentLimit < 2 * length samples \<Longrightarrow> createBlob argumentLimit samples = Inl RangeError"
  by (simp add: createBlob_def fromCharCode_spread_def length_bytes_createBlob)

lemma decode_btoa: "decode (btoa bytes) = Inr bytes"
  by (simp add: decode_def atob_btoa)

subsection \<open>Quantised samples and the loops of \<^verbatim>\<open>decodeAudioData\<close>\<close>

lemma truncate_rat_of_int: "truncate_rat (of_int k) = k"
  by (simp add: truncate_rat_def)

lemma sint_int16_in_range:
  "- 32768 \<le> k \<Longrightarrow> k \<le> 32767 \<Longrightarrow> sint (word_of_int k :: 16 word) = k"
  by (simp add: sint_sbintrunc' signed_take_bit_int_eq_self)

lemma quantized16_round_trip:
  assumes "quantized16 x"
  shows "int16_over_32768 (ToInt16 (times_32768 x)) = x"
proof (cases x)
  case (Num q)
  define k where "k = \<lfloor>q * 32768\<rfloor>"
  from assms Num have k: "of_int k = q * 32768" and lo: "- 32768 \<le> k" and hi: "k \<le> 32767"
    by (simp_all add: quantized16_def k_def)
  have "ToInt16 (times_32768 x) = word_of_int k"
    using Num by (simp add: k [symmetric] truncate_rat_of_int)
  then have "sint (ToInt16 (times_32768 x)) = k"
    using lo hi by (simp add: sint_int16_in_range)
  then have "(of_int (sint (ToInt16 (times_32768 x))) :: rat) / 32768 = q"
    by (simp add: k)
  with Num show ?thesis by (simp only: int16_over_32768_def)
qed (use assms in \<open>simp_all add: quantized16_def\<close>)

lemma fill_channel_mono:
  assumes "length cd = length d" and "i \<le> length d"
  shows "fill_channel d (Suc 0) 0 i cd = take i cd @ map (sample_at d) [i..<length d]"
  using assms
proof (induction "length d - i" arbitrary: i cd)
  case 0
  then have "i = length d" by simp
  with 0 show ?case
    by (subst fill_channel.simps) simp
next
  case (Suc n)
  then have lt: "i < length d" by simp
  have "fill_channel d (Suc 0) 0 i cd =
      fill_channel d (Suc 0) 0 (Suc i) (cd[i := sample_at d i])"
    using lt by (subst fill_channel.simps) simp
  also have "\<dots> = take (Suc i) (cd[i := sample_at d i]) @ map (sample_at d) [Suc i..<length d]"
    using Suc lt by (intro Suc.hyps(1)) simp_all
  also have "take (Suc i) (cd[i := sample_at d i]) = take i cd @ [sample_at d i]"
    using lt Suc.prems(1) by (simp add: take_Suc_conv_app_nth)
  finally show ?case
    using lt by (simp add: upt_conv_Cons)
qed

lemma map_sample_at: "map (sample_at d) [0..<length d] = map int16_over_32768 d"
  by (rule nth_equalityI) (simp_all add: sample_at_def)

lemma fill_channels_mono:
  assumes "channels buffer = [c]" and "length c = length d"
  shows "fill_channels d (Suc 0) 0 buffer =
     Inr (buffer\<lparr>channels := [map int16_over_32768 d]\<rparr>)"
proof -
  have "fill_channel d (Suc 0) 0 0 c = map int16_over_32768 d"
    using assms(2) by (simp add: fill_channel_mono map_sample_at)
  moreover have "fill_channels d (Suc 0) (Suc 0) b' = Inr b'" for b'
    by (subst fill_channels.simps) simp
  ultimately show ?thesis
    using assms(1)
    by (subst fill_channels.simps) (simp add: getChannelData_def)
qed

lemma encode_decode_samples:
  assumes "list_all quantized16 samples"
  shows "map int16_over_32768 (createBlob_int16 samples) = samples"
  using assms
  by (induction samples) (simp_all add: createBlob_int16_def quantized16_round_trip)

text \<open>
  C1, as stated, fails in three places. A sequence too long for one call of
  \<^verbatim>\<open>String.fromCharCode\<close> makes \<^verbatim>\<open>createBlob\<close> raise a \<^verbatim>\<open>RangeError\<close>: 300000
  samples are 600000 arguments, more than an engine with a limit of 500000 takes. The
  empty sequence encodes and decodes to no bytes, and \<^verbatim>\<open>createBuffer\<close> of a browser
  refuses a buffer of no frames. And a sample rate of \<open>0\<close> is refused for any sequence.
\<close>

theorem codec_round_trip_counterexample:
  "list_all quantized16 (replicate 300000 (Num 0)) \<and>
   createBlob 500000 (replicate 300000 (Num 0)) = Inl RangeError \<and>
   createBlob 500000 [] = Inr \<lparr>data = [], mimeType = ''audio/pcm;rate=16000''\<rparr> \<and>
   decode [] = Inr [] \<and>
   decodeAudioData [] (Some browser_context) 24000 1 = Inl NotSupportedError \<and>
   createBlob 500000 [Num 0] = Inr \<lparr>data = ''AAA='', mimeType = ''audio/pcm;rate=16000''\<rparr> \<and>
   decode ''AAA='' = Inr [0, 0] \<and>
   decodeAudioData [0, 0] (Some browser_context) 0 1 = Inl NotSupportedError"
proof (intro conjI)
  show "list_all quantized16 (replicate 300000 (Num 0))"
    by (simp add: list_all_iff quantized16_def)
  show "createBlob 500000 (replicate 300000 (Num 0)) = Inl RangeError"
    by (rule createBlob_long) simp
  show "createBlob 500000 [] = Inr \<lparr>data = [], mimeType = ''audio/pcm;rate=16000''\<rparr>"
    by (simp add: createBlob_short createBlob_int16_def Uint8Array_of_int16_def btoa_def)
  show "decode [] = Inr []"
    by (simp add: decode_def atob_def strip_padding_def)
  show "decodeAudioData [] (Some browser_context) 24000 1 = Inl NotSupportedError"
    by (simp add: decodeAudioData_def Int16Array_of_bytes_def frameCount_of_def
        browser_context_def web_audio_createBuffer_def truncate_rat_def)
  show "createBlob 500000 [Num 0] = Inr \<lparr>data = ''AAA='', mimeType = ''audio/pcm;rate=16000''\<rparr>"
    by (simp add: createBlob_short) code_simp
  show "decode ''AAA='' = Inr [0, 0]"
    by code_simp
  show "decodeAudioData [0, 0] (Some browser_context) 0 1 = Inl NotSupportedError"
    by (simp add: decodeAudioData_def Int16Array_of_bytes_def frameCount_of_def
        browser_context_def web_audio_createBuffer_def truncate_rat_def)
qed

text \<open>
  C1, amended. Codec round trip: for every sequence of samples that are quantised to
  16 bits (each \<open>k / 32768\<close> with \<open>k\<close> a signed 16-bit integer, hence in \<open>[-1, 1]\<close>)
  whose bytes, two for each sample, are no more than the engine takes as arguments of
  one call, \<^verbatim>\<open>createBlob\<close> returns a payload; \<^verbatim>\<open>decode\<close> of its text, then
  \<^verbatim>\<open>decodeAudioData\<close> with one channel, at a length and a sample rate for which the
  \<^verbatim>\<open>createBuffer\<close> of the context allocates the buffer asked for, returns a
  single-channel buffer whose samples are the original sequence.
\<close>

theorem codec_round_trip:
  assumes "list_all quantized16 samples"
    and "2 * length samples \<le> argumentLimit"
    and "allocates ctx 1 (length samples) rate"
  shows "\<exists>blob bytes buffer.
           createBlob argumentLimit samples = Inr blob \<and>
           decode (data blob) = Inr bytes \<and>
           decodeAudioData bytes (Some ctx) rate 1 = Inr buffer \<and>
           channels buffer = [samples]"
proof -
  let ?ws = "createBlob_int16 samples"
  let ?bytes = "Uint8Array_of_int16 ?ws"
  have len: "length ?ws = length samples"
    by (simp add: createBlob_int16_def)
  from assms(3) obtain b c where
    b: "createBuffer ctx 1 (Num (of_nat (length samples))) rate = Inr b"
    and c: "channels b = [c]" "length c = length samples"
    by (auto simp: allocates_def length_Suc_conv split: sum.splits)
  have "fill_channels ?ws (Suc 0) 0 b =
      Inr (b\<lparr>channels := [map int16_over_32768 ?ws]\<rparr>)"
    using c len by (simp add: fill_channels_mono [OF c(1)])
  then have "decodeAudioData ?bytes (Some ctx) rate 1 = Inr (b\<lparr>channels := [samples]\<rparr>)"
    using b assms(1)
    by (simp add: decodeAudioData_def Int16Array_of_Uint8Array frameCount_of_def len
        encode_decode_samples)
  then show ?thesis
    using createBlob_short [OF assms(2)] decode_btoa [of ?bytes] by auto
qed

theorem codec_round_trip_witness:
  "list_all quantized16 [Num 0, Num (1 / 2), Num (- 1), Num (32767 / 32768)] \<and>
   2 * length [Num 0, Num (1 / 2), Num (- 1), Num (32767 / 32768)] \<le> (65536 :: nat) \<and>
   allocates browser_context 1
     (length [Num 0, Num (1 / 2), Num (- 1), Num (32767 / 32768)]) 24000 \<and>
   (\<exists>blob bytes buffer.
      createBlob 65536 [Num 0, Num (1 / 2), Num (- 1), Num (32767 / 32768)] = Inr blob \<and>
      decode (data blob) = Inr bytes \<and>
      decodeAudioData bytes (Some browser_context) 24000 1 = Inr buffer \<and>
      channels buffer = [[Num 0, Num (1 / 2), Num (- 1), Num (32767 / 32768)]])"
proof -
  have q: "list_all quantized16 [Num 0, Num (1 / 2), Num (- 1), Num (32767 / 32768)]"
    by (simp add: quantized16_def)
  have l: "2 * length [Num 0, Num (1 / 2), Num (- 1), Num (32767 / 32768)] \<le> (65536 :: nat)"
    by simp
  have a: "allocates browser_context 1
     (length [Num 0, Num (1 / 2), Num (- 1), Num (32767 / 32768)]) 24000"
    by (simp add: allocates_def browser_context_def web_audio_createBuffer_def
        truncate_rat_def)
  from codec_round_trip [OF q l a] q l a show ?thesis
    by blast
qed

text \<open>
  C10. \<^verbatim>\<open>createBlob\<close> wraps instead of clamping: a finite sample is multiplied by
  \<open>32768\<close>, rounded towards zero (down when it is positive, up when it is negative) and
  reduced modulo \<open>2\<^sup>1\<^sup>6\<close> into the signed range. The sample \<open>1.0\<close> becomes \<open>-32768\<close> (not
  \<open>32767\<close>), NaN and the infinities become \<open>0\<close>, \<open>1.5\<close> becomes \<open>-16384\<close> and \<open>-1.5\<close>
  becomes \<open>16384\<close>; \<open>-0.00001\<close> becomes \<open>0\<close> (not \<open>-1\<close>), the products \<open>-1.5\<close> and
  \<open>1.5\<close> become \<open>-1\<close> and \<open>1\<close>; and the payload of the samples \<open>1.0\<close>, NaN is the
  base64 text of the bytes \<open>00 80 00 00\<close>.
\<close>

theorem encode_wraps:
  "sint (ToInt16 (times_32768 (Num q)))
     = ((if 0 \<le> q then \<lfloor>q * 32768\<rfloor> else \<lceil>q * 32768\<rceil>) + 32768) mod 65536 - 32768 \<and>
   map sint (createBlob_int16
     [Num 1, NaN, PosInf, NegInf, Num (3 / 2), Num (- (3 / 2)),
      Num (- (1 / 100000)), Num (- (3 / 65536)), Num (3 / 65536)])
     = [- 32768, 0, 0, 0, - 16384, 16384, 0, - 1, 1] \<and>
   createBlob 65536 [Num 1, NaN]
     = Inr \<lparr>data = ''AIAAAA=='', mimeType = ''audio/pcm;rate=16000''\<rparr>"
proof (intro conjI)
  have "truncate_rat (q * 32768) = (if 0 \<le> q then \<lfloor>q * 32768\<rfloor> else \<lceil>q * 32768\<rceil>)"
    by (simp add: truncate_rat_def zero_le_mult_iff)
  then show "sint (ToInt16 (times_32768 (Num q)))
     = ((if 0 \<le> q then \<lfloor>q * 32768\<rfloor> else \<lceil>q * 32768\<rceil>) + 32768) mod 65536 - 32768"
    by (simp add: sint_sbintrunc' signed_take_bit_eq_take_bit_shift take_bit_eq_mod
        del: of_int_floor_cancel)
  show "map sint (createBlob_int16
     [Num 1, NaN, PosInf, NegInf, Num (3 / 2), Num (- (3 / 2)),
      Num (- (1 / 100000)), Num (- (3 / 65536)), Num (3 / 65536)])
     = [- 32768, 0, 0, 0, - 16384, 16384, 0, - 1, 1]"
    by code_simp
  show "createBlob 65536 [Num 1, NaN]
     = Inr \<lparr>data = ''AIAAAA=='', mimeType = ''audio/pcm;rate=16000''\<rparr>"
    by (simp add: createBlob_short) code_simp
qed

section \<open>Properties of the live session\<close>

subsection \<open>Teardown\<close>

lemmas teardown_defs =
  release_session_def release_timer_def stop_sources_def close_output_def close_input_def
  stop_tracks_def reset_flags_def call_def

lemma disconnect_fields:
  "connected (disconnect s) = False"
  "isConnecting (disconnect s) = False"
  "micActive (disconnect s) = False"
  "sessionRef (disconnect s) = None"
  "sourcesRef (disconnect s) = []"
  "audioContextRef (disconnect s) = None"
  "inputContextRef (disconnect s) = None"
  "streamRef (disconnect s) = None"
  "nextStartTimeRef (disconnect s) = nextStartTimeRef s"
  "nodesCreated (disconnect s) = nodesCreated s"
  "awaitingMicrophone (disconnect s) = awaitingMicrophone s"
  by (simp_all add: disconnect_def teardown_defs split: option.splits)

lemma disconnect_timer:
  "videoIntervalRef (disconnect s) = (if videoIntervalRef s = Some 0 then Some 0 else None)"
  by (simp add: disconnect_def teardown_defs split: option.splits)

lemma disconnect_effects:
  "effects (disconnect s) =
     effects s
     @ (case videoIntervalRef s of None \<Rightarrow> [] | Some h \<Rightarrow> if h = 0 then [] else [ClearInterval h])
     @ map SourceStop (sourcesRef s)
     @ (case audioContextRef s of None \<Rightarrow> [] | Some c \<Rightarrow> [ContextClose (context_id c)])
     @ (case inputContextRef s of None \<Rightarrow> [] | Some c \<Rightarrow> [ContextClose (context_id c)])
     @ (case streamRef s of None \<Rightarrow> [] | Some m \<Rightarrow> map TrackStop (tracks m))"
  by (simp add: disconnect_def teardown_defs split: option.splits)

lemma disconnect_torn_down:
  assumes "\<not> connected t" "\<not> isConnecting t" "\<not> micActive t" "sessionRef t = None"
    "sourcesRef t = []" "audioContextRef t = None" "inputContextRef t = None"
    "streamRef t = None" "videoIntervalRef t = None \<or> videoIntervalRef t = Some 0"
  shows "disconnect t = t"
  using assms by (cases t) (auto simp: disconnect_def teardown_defs)

lemma disconnect_twice: "disconnect (disconnect s) = disconnect s"
  by (rule disconnect_torn_down) (simp_all add: disconnect_fields disconnect_timer)

text \<open>
  C5. \<^verbatim>\<open>disconnect\<close> can be called in any state and has no failing branch. Called
  twice in a row it changes nothing the second time, and called on the idle player it
  changes nothing at all; afterwards every flag is off and every cell is empty (for a
  timer handle that is positive, as \<^verbatim>\<open>setInterval\<close> returns it). After a fully
  established session the calls it makes on the platform are exactly: clear the frame
  timer, stop every source of the set, close the output and the input context, stop
  every track of the microphone stream, each once.
\<close>

theorem disconnect_idempotent_and_complete:
  "disconnect (disconnect s) = disconnect s \<and>
   disconnect idle = idle \<and>
   (videoIntervalRef s \<noteq> Some 0 \<longrightarrow> cleared (disconnect s)) \<and>
   (established s \<longrightarrow>
      cleared (disconnect s) \<and>
      (\<exists>out inp m h.
         audioContextRef s = Some out \<and> inputContextRef s = Some inp \<and>
         streamRef s = Some m \<and> videoIntervalRef s = Some h \<and>
         effects (disconnect s) =
           effects s @ [ClearInterval h] @ map SourceStop (sourcesRef s)
           @ [ContextClose (context_id out), ContextClose (context_id inp)]
           @ map TrackStop (tracks m) \<and>
         distinct ([ClearInterval h] @ map SourceStop (sourcesRef s)
           @ [ContextClose (context_id out), ContextClose (context_id inp)]
           @ map TrackStop (tracks m))))"
proof (intro conjI impI)
  show "disconnect (disconnect s) = disconnect s"
    by (rule disconnect_twice)
  show "disconnect idle = idle"
    by (rule disconnect_torn_down) (simp_all add: idle_def)
  show "cleared (disconnect s)" if "videoIntervalRef s \<noteq> Some 0"
    using that by (simp add: cleared_def disconnect_fields disconnect_timer)
  show "cleared (disconnect s)" if "established s"
    using that
    by (auto simp: cleared_def disconnect_fields disconnect_timer established_def
        split: option.splits)
  show "\<exists>out inp m h.
         audioContextRef s = Some out \<and> inputContextRef s = Some inp \<and>
         streamRef s = Some m \<and> videoIntervalRef s = Some h \<and>
         effects (disconnect s) =
           effects s @ [ClearInterval h] @ map SourceStop (sourcesRef s)
           @ [ContextClose (context_id out), ContextClose (context_id inp)]
           @ map TrackStop (tracks m) \<and>
         distinct ([ClearInterval h] @ map SourceStop (sourcesRef s)
           @ [ContextClose (context_id out), ContextClose (context_id inp)]
           @ map TrackStop (tracks m))" if "established s"
    using that
    by (auto simp: established_def disconnect_effects distinct_map inj_on_def
        split: option.splits)
qed

theorem disconnect_idempotent_and_complete_witness:
  "videoIntervalRef playing_session \<noteq> Some 0 \<and>
   established playing_session \<and>
   sourcesRef playing_session = [0, 1] \<and>
   cleared (disconnect playing_session) \<and>
   disconnect (disconnect playing_session) = disconnect playing_session \<and>
   effects (disconnect playing_session) =
     effects playing_session
     @ [ClearInterval 5, SourceStop 0, SourceStop 1, ContextClose 0, ContextClose 1,
        TrackStop 70]"
proof -
  have e: "established playing_session"
    by code_simp
  have v: "videoIntervalRef playing_session = Some 5"
    by code_simp
  have r: "sourcesRef playing_session = [0, 1]"
    by code_simp
  have c: "map_option context_id (audioContextRef playing_session) = Some 0"
    "map_option context_id (inputContextRef playing_session) = Some 1"
    "map_option tracks (streamRef playing_session) = Some [70]"
    by code_simp+
  from disconnect_idempotent_and_complete [of playing_session] e v r c
  show ?thesis
    by auto
qed

subsection \<open>Messages and interruptions\<close>

lemmas audio_defs =
  onmessage_audio_def schedule_or_drop_def schedule_def dropped_def call_def Let_def

lemma onmessage_audio_context:
  "audioContextRef (after (onmessage_audio s env msg)) = audioContextRef s"
  by (simp add: audio_defs split: option.splits sum.splits)

lemma onmessage_audio_thrown: "thrown (onmessage_audio s env msg) = None"
  by (simp add: audio_defs split: option.splits sum.splits)

lemma onmessage_audio_scheduled:
  "scheduled (onmessage_audio s env msg) = Some (t, d) \<Longrightarrow>
     t = max (nextStartTimeRef s) (time_at_schedule env) \<and>
     nextStartTimeRef (after (onmessage_audio s env msg)) = t + d"
  by (auto simp: audio_defs split: option.splits sum.splits if_splits)

lemma onmessage_audio_unscheduled:
  "scheduled (onmessage_audio s env msg) = None \<Longrightarrow>
     nextStartTimeRef (after (onmessage_audio s env msg)) = nextStartTimeRef s"
  by (auto simp: audio_defs split: option.splits sum.splits if_splits)

lemma onmessage_audio_effects:
  "take (length (effects s)) (effects (after (onmessage_audio s env msg))) = effects s"
  by (simp add: audio_defs split: option.splits sum.splits)

lemma onmessage_audio_sources:
  "set (sourcesRef s) \<subseteq> set (sourcesRef (after (onmessage_audio s env msg)))"
  by (auto simp: audio_defs set_add_def split: option.splits sum.splits)

lemma onmessage_scheduled: "scheduled (onmessage s env msg) = scheduled (onmessage_audio s env msg)"
  by (simp add: onmessage_def interrupt_if_flagged_def Let_def split: prod.splits)

lemma onmessage_quiet:
  "\<not> interrupted msg \<Longrightarrow> onmessage s env msg = onmessage_audio s env msg"
  by (simp add: onmessage_def interrupt_if_flagged_def)

lemma onmessage_start:
  assumes "scheduled (onmessage s env msg) = Some (t, d)"
  shows "t = max (nextStartTimeRef s) (time_at_schedule env)"
  using assms onmessage_audio_scheduled [of s env msg t d] by (simp add: onmessage_scheduled)

lemma onmessage_interrupted:
  assumes "audioContextRef s \<noteq> None" and "interrupted msg"
  shows "thrown (onmessage s env msg) = None"
    and "sourcesRef (after (onmessage s env msg)) = []"
    and "nextStartTimeRef (after (onmessage s env msg)) = time_at_interrupt env"
    and "effects (after (onmessage s env msg)) =
           effects (after (onmessage_audio s env msg))
           @ map SourceStop (sourcesRef (after (onmessage_audio s env msg)))"
proof -
  from assms(1) obtain c where "audioContextRef (after (onmessage_audio s env msg)) = Some c"
    by (auto simp: onmessage_audio_context)
  with assms(2) show "thrown (onmessage s env msg) = None"
    and "sourcesRef (after (onmessage s env msg)) = []"
    and "nextStartTimeRef (after (onmessage s env msg)) = time_at_interrupt env"
    and "effects (after (onmessage s env msg)) =
           effects (after (onmessage_audio s env msg))
           @ map SourceStop (sourcesRef (after (onmessage_audio s env msg)))"
    by (simp_all add: onmessage_def interrupt_if_flagged_def interrupt_def call_def Let_def)
qed

text \<open>
  C3. When a message with the interruption flag arrives while the output context exists:
  no error leaves the callback, every source that is in the set when the interruption
  runs (all those of the set before the message among them) is stopped during the
  call, the set is empty afterwards, the cursor is the clock reading of the
  interruption, and the next chunk that is scheduled starts no earlier than that
  reading.
\<close>

theorem interruption_clears_future_audio:
  assumes "audioContextRef s \<noteq> None" and "interrupted msg"
  shows "thrown (onmessage s env msg) = None \<and>
         sourcesRef (after (onmessage s env msg)) = [] \<and>
         nextStartTimeRef (after (onmessage s env msg)) = time_at_interrupt env \<and>
         set (sourcesRef s) \<subseteq> set (sourcesRef (after (onmessage_audio s env msg))) \<and>
         (\<forall>source \<in> set (sourcesRef (after (onmessage_audio s env msg))).
            SourceStop source
              \<in> set (drop (length (effects s)) (effects (after (onmessage s env msg))))) \<and>
         (case scheduled (onmessage (after (onmessage s env msg)) env' msg') of
            None \<Rightarrow> True
          | Some (t, d) \<Rightarrow> time_at_interrupt env \<le> t)"
proof (intro conjI)
  note i = onmessage_interrupted [OF assms, of env]
  show "thrown (onmessage s env msg) = None"
    and "sourcesRef (after (onmessage s env msg)) = []"
    and "nextStartTimeRef (after (onmessage s env msg)) = time_at_interrupt env"
    by (rule i)+
  show "set (sourcesRef s) \<subseteq> set (sourcesRef (after (onmessage_audio s env msg)))"
    by (rule onmessage_audio_sources)
  have "length (effects s) \<le> length (effects (after (onmessage_audio s env msg)))"
    using onmessage_audio_effects [of s env msg]
    by (metis length_take min.cobounded1)
  then show "\<forall>source \<in> set (sourcesRef (after (onmessage_audio s env msg))).
            SourceStop source
              \<in> set (drop (length (effects s)) (effects (after (onmessage s env msg))))"
    by (simp add: i(4))
  show "case scheduled (onmessage (after (onmessage s env msg)) env' msg') of
            None \<Rightarrow> True
          | Some (t, d) \<Rightarrow> time_at_interrupt env \<le> t"
    using onmessage_start [of "after (onmessage s env msg)" env' msg']
    by (auto simp: i(3) split: option.splits)
qed

theorem interruption_clears_future_audio_witness:
  "audioContextRef playing_session \<noteq> None \<and>
   interrupted interruption \<and>
   sourcesRef playing_session = [0, 1] \<and>
   thrown (onmessage playing_session (at_time 2) interruption) = None \<and>
   sourcesRef (after (onmessage playing_session (at_time 2) interruption)) = [] \<and>
   nextStartTimeRef (after (onmessage playing_session (at_time 2) interruption)) = 2 \<and>
   drop (length (effects playing_session))
     (effects (after (onmessage playing_session (at_time 2) interruption)))
     = [SourceStop 0, SourceStop 1] \<and>
   scheduled (onmessage (after (onmessage playing_session (at_time 2) interruption))
     (at_time 3) chunk) = Some (3, 1 / 12000)"
proof -
  have a: "audioContextRef playing_session \<noteq> None"
    by code_simp
  have b: "interrupted interruption"
    by (simp add: interruption_def)
  have c: "sourcesRef playing_session = [0, 1]"
    by code_simp
  have d: "drop (length (effects playing_session))
     (effects (after (onmessage playing_session (at_time 2) interruption)))
     = [SourceStop 0, SourceStop 1]"
    by code_simp
  have e: "scheduled (onmessage (after (onmessage playing_session (at_time 2) interruption))
     (at_time 3) chunk) = Some (3, 1 / 12000)"
    by code_simp
  have f: "time_at_interrupt (at_time 2) = 2"
    by (simp add: at_time_def)
  from interruption_clears_future_audio [OF a b, of "at_time 2" "at_time 3" chunk] a b c d e f
  show ?thesis
    by simp
qed

subsection \<open>The scheduler\<close>

text \<open>
  C2, as stated, fails on a session with an interruption between two chunks: the second
  chunk starts at \<open>1/20000\<close>, before the first one ends at \<open>1/12000\<close>, and the cursor
  after the interruption is smaller than before it.
\<close>

theorem scheduler_monotonicity_counterexample:
  "play established_session interrupted_session
     = [(0, 0, 1 / 12000), (1 / 20000, 1 / 20000, 1 / 12000)] \<and>
   \<not> gapless (nextStartTimeRef established_session) (play established_session interrupted_session) \<and>
   \<not> (0 + 1 / 12000 \<le> (1 / 20000 :: rat)) \<and>
   nextStartTimeRef (run established_session (take 2 interrupted_session))
     < nextStartTimeRef (run established_session (take 1 interrupted_session))"
  by code_simp

lemma play_starts_after_clock:
  "list_all (\<lambda>(now, startTime, d). now \<le> startTime) (play s evs)"
proof (induction evs arbitrary: s)
  case Nil
  show ?case by simp
next
  case (Cons ev evs)
  obtain env msg where ev: "ev = (env, msg)" by (cases ev)
  show ?case
    using Cons [of "after (onmessage s env msg)"] onmessage_start [of s env msg]
    by (auto simp: ev Let_def split: option.splits)
qed

lemma play_gapless:
  "list_all (\<lambda>(env, msg). \<not> interrupted msg) evs \<Longrightarrow> gapless (nextStartTimeRef s) (play s evs)"
proof (induction evs arbitrary: s)
  case Nil
  show ?case by simp
next
  case (Cons ev evs)
  obtain env msg where ev: "ev = (env, msg)" by (cases ev)
  from Cons.prems have q: "\<not> interrupted msg" and rest: "list_all (\<lambda>(env, msg). \<not> interrupted msg) evs"
    by (simp_all add: ev)
  let ?r = "onmessage_audio s env msg"
  have ih: "gapless (nextStartTimeRef (after ?r)) (play (after ?r) evs)"
    by (rule Cons.IH [OF rest])
  show ?case
  proof (cases "scheduled ?r")
    case None
    then show ?thesis
      using ih onmessage_audio_unscheduled [of s env msg]
      by (simp add: ev onmessage_quiet [OF q])
  next
    case (Some p)
    obtain t d where p: "p = (t, d)" by (cases p)
    from Some p onmessage_audio_scheduled [of s env msg t d]
    have "t = max (nextStartTimeRef s) (time_at_schedule env)"
      and "nextStartTimeRef (after ?r) = t + d"
      by simp_all
    then show ?thesis
      using ih Some p by (simp add: ev onmessage_quiet [OF q])
  qed
qed

lemma run_cursor_mono:
  "list_all (\<lambda>(env, msg). \<not> interrupted msg) evs \<Longrightarrow>
   list_all (\<lambda>(now, startTime, d). 0 \<le> d) (play s evs) \<Longrightarrow>
   nextStartTimeRef s \<le> nextStartTimeRef (run s evs)"
proof (induction evs arbitrary: s)
  case Nil
  show ?case by simp
next
  case (Cons ev evs)
  obtain env msg where ev: "ev = (env, msg)" by (cases ev)
  from Cons.prems(1) have q: "\<not> interrupted msg" and rest: "list_all (\<lambda>(env, msg). \<not> interrupted msg) evs"
    by (simp_all add: ev)
  let ?r = "onmessage_audio s env msg"
  from Cons.prems(2) have d: "list_all (\<lambda>(now, startTime, d). 0 \<le> d) (play (after ?r) evs)"
    by (simp add: ev onmessage_quiet [OF q] Let_def)
  have ih: "nextStartTimeRef (after ?r) \<le> nextStartTimeRef (run (after ?r) evs)"
    by (rule Cons.IH [OF rest d])
  have "nextStartTimeRef s \<le> nextStartTimeRef (after ?r)"
  proof (cases "scheduled ?r")
    case None
    then show ?thesis
      using onmessage_audio_unscheduled [of s env msg] by simp
  next
    case (Some p)
    obtain t dur where p: "p = (t, dur)" by (cases p)
    from Some p onmessage_audio_scheduled [of s env msg t dur]
    have "t = max (nextStartTimeRef s) (time_at_schedule env)"
      and "nextStartTimeRef (after ?r) = t + dur"
      by simp_all
    moreover from Cons.prems(2) Some p have "0 \<le> dur"
      by (simp add: ev onmessage_quiet [OF q] Let_def)
    ultimately show ?thesis by simp
  qed
  with ih show ?case
    by (simp add: ev onmessage_quiet [OF q])
qed

text \<open>
  C2, amended. Every chunk that is scheduled starts no earlier than the clock reading
  at its scheduling. Over any run of messages without an interruption, each chunk starts
  no earlier than the cursor before it, hence no earlier than the start of the chunk
  before plus that chunk's duration; and if the durations are not negative, the cursor
  does not decrease over the run.
\<close>

theorem scheduler_monotone_between_interruptions:
  "list_all (\<lambda>(now, startTime, d). now \<le> startTime) (play s evs) \<and>
   (list_all (\<lambda>(env, msg). \<not> interrupted msg) evs \<longrightarrow>
      gapless (nextStartTimeRef s) (play s evs) \<and>
      (list_all (\<lambda>(now, startTime, d). 0 \<le> d) (play s evs) \<longrightarrow>
         nextStartTimeRef s \<le> nextStartTimeRef (run s evs)))"
  using play_starts_after_clock play_gapless run_cursor_mono by blast

theorem scheduler_monotone_between_interruptions_witness:
  "list_all (\<lambda>(env, msg). \<not> interrupted msg)
     [(at_time 0, chunk), (at_time 1, chunk), (at_time 1, chunk)] \<and>
   play established_session [(at_time 0, chunk), (at_time 1, chunk), (at_time 1, chunk)]
     = [(0, 0, 1 / 12000), (1, 1, 1 / 12000), (1, 12001 / 12000, 1 / 12000)] \<and>
   gapless (nextStartTimeRef established_session)
     (play established_session [(at_time 0, chunk), (at_time 1, chunk), (at_time 1, chunk)]) \<and>
   nextStartTimeRef established_session
     \<le> nextStartTimeRef (run established_session
          [(at_time 0, chunk), (at_time 1, chunk), (at_time 1, chunk)])"
proof -
  have a: "list_all (\<lambda>(env, msg). \<not> interrupted msg)
     [(at_time 0, chunk), (at_time 1, chunk), (at_time 1, chunk)]"
    by (simp add: chunk_def)
  have b: "play established_session [(at_time 0, chunk), (at_time 1, chunk), (at_time 1, chunk)]
     = [(0, 0, 1 / 12000), (1, 1, 1 / 12000), (1, 12001 / 12000, 1 / 12000)]"
    by code_simp
  from scheduler_monotone_between_interruptions
    [of established_session "[(at_time 0, chunk), (at_time 1, chunk), (at_time 1, chunk)]"] a b
  show ?thesis
    by simp
qed

subsection \<open>Callbacks after teardown\<close>

text \<open>
  C4. What the code does with a late message: after \<^verbatim>\<open>disconnect\<close>, whatever the
  state was, a message that carries the interruption flag, with or without audio, ends
  in a \<^verbatim>\<open>TypeError\<close> that leaves the callback, from the read of \<^verbatim>\<open>currentTime\<close> on the
  cleared context cell. \<^verbatim>\<open>disconnect\<close> does not close the session, so its messages keep
  arriving. The same error leaves a call that was suspended at
  \<^verbatim>\<open>await decodeAudioData\<close> when \<^verbatim>\<open>disconnect\<close> ran and goes on afterwards.
\<close>

theorem late_interruption_raises:
  "thrown (onmessage (disconnect s) env \<lparr>inlineData = payload, interrupted = True\<rparr>)
     = Some TypeError \<and>
   thrown (resume_after_decode (disconnect s) env
             \<lparr>inlineData = payload, interrupted = True\<rparr> audioBuffer)
     = Some TypeError"
proof
  have "audioContextRef (after (onmessage_audio (disconnect s) env
          \<lparr>inlineData = payload, interrupted = True\<rparr>)) = None"
    by (simp add: onmessage_audio_context disconnect_fields)
  then show "thrown (onmessage (disconnect s) env
      \<lparr>inlineData = payload, interrupted = True\<rparr>) = Some TypeError"
    by (simp add: onmessage_def interrupt_if_flagged_def interrupt_def call_def Let_def)
  have "schedule_or_drop (disconnect s) env audioBuffer = dropped (disconnect s) TypeError"
    by (simp add: schedule_or_drop_def disconnect_fields)
  then show "thrown (resume_after_decode (disconnect s) env
      \<lparr>inlineData = payload, interrupted = True\<rparr> audioBuffer) = Some TypeError"
    by (simp add: resume_after_decode_def interrupt_if_flagged_def interrupt_def call_def
        dropped_def disconnect_fields Let_def)
qed

text \<open>A late message without the flag is dropped: its audio fails inside the \<^verbatim>\<open>try\<close>.\<close>

lemma late_audio_dropped:
  assumes "\<not> interrupted msg"
  shows "after (onmessage (disconnect s) env msg) = disconnect s"
    and "scheduled (onmessage (disconnect s) env msg) = None"
    and "thrown (onmessage (disconnect s) env msg) = None"
    and "resume_after_decode (disconnect s) env msg audioBuffer = dropped (disconnect s) TypeError"
  using assms
  by (simp_all add: onmessage_quiet audio_defs disconnect_fields decodeAudioData_def
      resume_after_decode_def interrupt_if_flagged_def split: option.splits sum.splits)

subsection \<open>The guard of \<^verbatim>\<open>connect\<close> and a second session\<close>

text \<open>The guard of \<^verbatim>\<open>connect\<close>: with either flag set the call changes nothing.\<close>

lemma connect_guard:
  "connected s \<or> isConnecting s \<Longrightarrow> connect_begin s outputContext t = (s, False)"
  by (simp add: connect_begin_def)

text \<open>
  C6. What the code does when the companion is closed and opened again while the first
  request for the microphone is pending: both calls of \<^verbatim>\<open>connect\<close> pass the guard and
  are suspended, and once both requests are granted two frame timers and the tracks of
  two microphone streams are live, of which the cells hold only the second; a later
  \<^verbatim>\<open>disconnect\<close> releases the second and leaves the first timer and the first stream
  running.
\<close>

theorem reopened_while_pending_two_sessions:
  "snd (connect_begin idle test_context 0) \<and>
   snd (connect_begin (disconnect (fst (connect_begin idle test_context 0)))
          second_output_context 0) \<and>
   live_timers reopened_while_pending = [5, 6] \<and>
   live_tracks reopened_while_pending [microphone, second_microphone] = [70, 80] \<and>
   map_option stream_id (streamRef reopened_while_pending) = Some 8 \<and>
   videoIntervalRef reopened_while_pending = Some 6 \<and>
   live_timers (disconnect reopened_while_pending) = [5] \<and>
   live_tracks (disconnect reopened_while_pending) [microphone, second_microphone] = [70]"
  by code_simp

end
